theory Spec2Isabelle
  imports Complex_Main
begin

section \<open>JavaScript arithmetic on numbers\<close>

text \<open>
  The component computes on JavaScript numbers, which are IEEE binary64 doubles. The
  claims are stated for real inputs, and the spec leaves non-finite input uncontracted,
  so the functions are first given in exact arithmetic on \<^typ>\<open>real\<close>: \<open>NaN\<close>, the
  infinities and the sign of zero have no counterpart. Rounding changes a result in kind
  at one place, the sum \<open>v + 360\<close> of \<open>clampHeadingDegrees\<close>; the section on doubles below
  gives that function and its callers with every rounded operation written out.
\<close>

definition js_rem :: "real \<Rightarrow> real \<Rightarrow> real" where
  \<comment> \<open>The operator \<open>%\<close>: the quotient is truncated towards zero, so the result has the
      sign of the dividend. The divisor is a non-zero literal at every use.\<close>
  "js_rem a n = a - n * of_int (if a / n < 0 then \<lceil>a / n\<rceil> else \<lfloor>a / n\<rfloor>)"

definition math_round :: "real \<Rightarrow> int" where
  \<comment> \<open>\<open>Math.round\<close>: the nearest integer, a tie going up.\<close>
  "math_round x = \<lfloor>x + 1 / 2\<rfloor>"

definition js_rem_int :: "int \<Rightarrow> int \<Rightarrow> int" where
  \<comment> \<open>\<open>%\<close> on integral numbers.\<close>
  "js_rem_int k l = sgn k * (\<bar>k\<bar> mod \<bar>l\<bar>)"

definition math_atan2 :: "real \<Rightarrow> real \<Rightarrow> real" where
  \<comment> \<open>\<open>Math.atan2(y, x)\<close>: the angle of the point \<open>(x, y)\<close>, in \<open>(-pi, pi]\<close>, and 0 at the
      origin.\<close>
  "math_atan2 y x =
     (if 0 < x then arctan (y / x)
      else if x < 0 then (if 0 \<le> y then arctan (y / x) + pi else arctan (y / x) - pi)
      else if 0 < y then pi / 2
      else if y < 0 then - (pi / 2)
      else 0)"

section \<open>HeadingMath\<close>

record MagnetometerReading =
  x :: real
  y :: real
  z :: real

definition clampHeadingDegrees :: "real \<Rightarrow> real" where
  \<comment> \<open>In exact arithmetic; \<open>clampHeadingDegrees_f64\<close> rounds the sum as the doubles do.\<close>
  "clampHeadingDegrees deg = (let v = js_rem deg 360 in if v < 0 then v + 360 else v)"

definition shortestDeltaDegrees :: "real \<Rightarrow> real \<Rightarrow> real" where
  "shortestDeltaDegrees fromDeg toDeg =
     (let a = clampHeadingDegrees fromDeg;
          b = clampHeadingDegrees toDeg
      in js_rem (b - a + 540) 360 - 180)"

definition headingFromMagnetometer_v1 :: "MagnetometerReading \<Rightarrow> real" where
  \<comment> \<open>First variant of the file: the angle of \<open>(x, y)\<close>, turned by 90 degrees.\<close>
  "headingFromMagnetometer_v1 r =
     (let angleRad = math_atan2 (y r) (x r);
          angleDeg = (angleRad * 180) / pi
      in clampHeadingDegrees (angleDeg + 90))"

definition headingFromMagnetometer_v2 :: "MagnetometerReading \<Rightarrow> real" where
  \<comment> \<open>Second variant of the file: the angle of \<open>(y, -x)\<close>, with no offset.\<close>
  "headingFromMagnetometer_v2 r =
     (let angleRad = math_atan2 (- x r) (y r);
          angleDeg = (angleRad * 180) / pi
      in clampHeadingDegrees angleDeg)"

definition headings :: "string list" where
  "headings = [''N'', ''NE'', ''E'', ''SE'', ''S'', ''SW'', ''W'', ''NW'']"

definition cardinalFromHeading :: "real \<Rightarrow> string option" where
  \<comment> \<open>An index outside the array reads \<open>undefined\<close>, which is \<open>None\<close> here.\<close>
  "cardinalFromHeading deg =
     (let idx = js_rem_int (math_round (clampHeadingDegrees deg / 45)) 8
      in if 0 \<le> idx \<and> idx < int (length headings) then Some (headings ! nat idx) else None)"

definition normalizeDegrees_spec :: "real \<Rightarrow> real" where
  \<comment> \<open>The formula of the specification, \<open>((deg mod 360) + 360) mod 360\<close>, with the
      remainder operator of the source language.\<close>
  "normalizeDegrees_spec deg = js_rem (js_rem deg 360 + 360) 360"

definition normalizeDegrees_floor :: "real \<Rightarrow> real" where
  \<comment> \<open>The same formula read with the mathematical (floored) remainder.\<close>
  "normalizeDegrees_floor deg =
     (let m = (\<lambda>a::real. a - 360 * of_int \<lfloor>a / 360\<rfloor>) in m (m deg + 360))"

section \<open>HeadingMath on doubles\<close>

text \<open>
  A double is a real of the form \<open>m * 2^(e - 52)\<close> with an integer \<open>m\<close> below \<open>2^53\<close> in
  magnitude. An addition or subtraction of two doubles returns the double nearest to the
  exact result, a tie going to the even significand; \<open>%\<close> is exact on doubles. Overflow
  to infinity is not modelled: no value here comes near \<open>2^1024\<close>. The arguments of the
  functions below are doubles.
\<close>

definition round_ties_even :: "real \<Rightarrow> int" where
  \<comment> \<open>The nearest integer, a tie going to the even one.\<close>
  "round_ties_even t =
     (let f = \<lfloor>t\<rfloor>; r = t - of_int f
      in if r < 1 / 2 then f else if 1 / 2 < r then f + 1 else if even f then f else f + 1)"

definition f64_round :: "real \<Rightarrow> real" where
  \<comment> \<open>Rounding to the nearest double: \<open>u\<close> is the spacing of the doubles around \<open>t\<close>, and
      \<open>2^(-1074)\<close> in the subnormal range.\<close>
  "f64_round t =
     (if t = 0 then 0
      else let e = max \<lfloor>log 2 \<bar>t\<bar>\<rfloor> (- 1022);
               u = 2 powr (of_int e - 52)
           in of_int (round_ties_even (t / u)) * u)"

definition clampHeadingDegrees_f64 :: "real \<Rightarrow> real" where
  "clampHeadingDegrees_f64 deg =
     (let v = js_rem deg 360 in if v < 0 then f64_round (v + 360) else v)"

definition shortestDeltaDegrees_f64 :: "real \<Rightarrow> real \<Rightarrow> real" where
  "shortestDeltaDegrees_f64 fromDeg toDeg =
     (let a = clampHeadingDegrees_f64 fromDeg;
          b = clampHeadingDegrees_f64 toDeg
      in f64_round (js_rem (f64_round (f64_round (b - a) + 540)) 360 - 180))"

definition normalizeDegrees_spec_f64 :: "real \<Rightarrow> real" where
  \<comment> \<open>The formula of the specification, \<open>((deg mod 360) + 360) mod 360\<close>, on doubles.\<close>
  "normalizeDegrees_spec_f64 deg = js_rem (f64_round (js_rem deg 360 + 360)) 360"

section \<open>The Compass component\<close>

text \<open>
  The hook state of one mounted component. The shared value \<open>rotationDeg\<close> is animated:
  assigning \<open>withTiming(next, ...)\<close> to it starts a transition towards \<open>next\<close> and leaves the
  value that \<open>rotationDeg.value\<close> reads where it is. \<open>rotationDeg\<close> is that value and
  \<open>rotationTarget\<close> the target of the last transition.
\<close>

record Compass =
  available :: "bool option"
  heading :: real
  accuracyHint :: "string option"
  rotationDeg :: real
  rotationTarget :: real

definition calibrationMessage :: string where
  \<comment> \<open>The hyphen of \<open>figure-8\<close> is U+2011 in the source, three bytes in UTF-8.\<close>
  "calibrationMessage =
     ''Move phone in a figure'' @ [CHR 0xE2, CHR 0x80, CHR 0x91] @ ''8 to calibrate''"

definition initialCompass :: Compass where
  "initialCompass =
     \<lparr>available = None, heading = 0, accuracyHint = None, rotationDeg = 0, rotationTarget = 0\<rparr>"

definition onSample_v1 :: "MagnetometerReading \<Rightarrow> Compass \<Rightarrow> Compass" where
  \<comment> \<open>The listener of the first variant.\<close>
  "onSample_v1 data s =
     (let h = headingFromMagnetometer_v1 data;
          s1 = s\<lparr>heading := h\<rparr>;
          current = rotationDeg s1;
          delta = shortestDeltaDegrees current h;
          next = current + delta;
          s2 = s1\<lparr>rotationTarget := next\<rparr>;
          mag = sqrt (x data * x data + y data * y data + z data * z data)
      in if mag < 15 \<or> mag > 80 then s2\<lparr>accuracyHint := Some calibrationMessage\<rparr>
         else s2\<lparr>accuracyHint := None\<rparr>)"

definition onSample_v2 :: "MagnetometerReading \<Rightarrow> Compass \<Rightarrow> Compass" where
  \<comment> \<open>The listener of the second variant.\<close>
  "onSample_v2 data s =
     (let h = headingFromMagnetometer_v2 data;
          current = js_rem (rotationDeg s) 360;
          delta = shortestDeltaDegrees current h;
          next = current + delta;
          s1 = s\<lparr>rotationTarget := next\<rparr>;
          s2 = s1\<lparr>heading := of_int (math_round h)\<rparr>;
          mag = sqrt ((x data)\<^sup>2 + (y data)\<^sup>2 + (z data)\<^sup>2)
      in if mag < 25 \<or> mag > 65 then s2\<lparr>accuracyHint := Some calibrationMessage\<rparr>
         else s2\<lparr>accuracyHint := None\<rparr>)"

definition settle :: "Compass \<Rightarrow> Compass" where
  \<comment> \<open>The running transition of \<open>rotationDeg\<close> reaches its target.\<close>
  "settle s = s\<lparr>rotationDeg := rotationTarget s\<rparr>"

datatype Variant = V1 | V2

fun onSample :: "Variant \<Rightarrow> MagnetometerReading \<Rightarrow> Compass \<Rightarrow> Compass" where
  "onSample V1 = onSample_v1"
| "onSample V2 = onSample_v2"

fun updateIntervalMs :: "Variant \<Rightarrow> nat" where
  "updateIntervalMs V1 = 80"
| "updateIntervalMs V2 = 100"

text \<open>
  One mount of the component, from the run of the sensor effect to the end. \<open>sub\<close> is the
  effect's variable of that name (true when it holds a subscription), \<open>listening\<close> says
  that the magnetometer has the listener of this mount registered, \<open>probePending\<close> that
  \<open>isAvailableAsync\<close> has not resolved yet.
\<close>

record Mount =
  compass :: Compass
  sub :: bool
  listening :: bool
  updateInterval :: "nat option"
  probePending :: bool
  mounted :: bool

datatype Event =
    ProbeResolved bool
  | Sample real real real
  | AnimationSettled
  | Unmount

definition mount :: Mount where
  \<comment> \<open>After the first render and the run of the effect: the probe is under way.\<close>
  "mount =
     \<lparr>compass = initialCompass, sub = False, listening = False, updateInterval = None,
      probePending = True, mounted = True\<rparr>"

definition probeResolved :: "Variant \<Rightarrow> bool \<Rightarrow> Mount \<Rightarrow> Mount" where
  \<comment> \<open>The rest of the asynchronous function of the effect, after the \<open>await\<close>.\<close>
  "probeResolved v isAvailable m =
     (let m1 = m\<lparr>probePending := False,
                   compass := (compass m)\<lparr>available := Some isAvailable\<rparr>\<rparr>
      in if \<not> isAvailable then m1
         else m1\<lparr>updateInterval := Some (updateIntervalMs v), sub := True, listening := True\<rparr>)"

definition cleanup :: "Mount \<Rightarrow> Mount" where
  \<comment> \<open>The function the effect returns: \<open>sub?.remove()\<close>.\<close>
  "cleanup m = (if sub m then m\<lparr>listening := False\<rparr> else m)"

fun step :: "Variant \<Rightarrow> Mount \<Rightarrow> Event \<Rightarrow> Mount" where
  "step v m (ProbeResolved isAvailable) =
     (if probePending m then probeResolved v isAvailable m else m)"
| "step v m (Sample sx sy sz) =
     (if listening m then m\<lparr>compass := onSample v \<lparr>x = sx, y = sy, z = sz\<rparr> (compass m)\<rparr>
      else m)"
| "step v m AnimationSettled = m\<lparr>compass := settle (compass m)\<rparr>"
| "step v m Unmount = (if mounted m then (cleanup m)\<lparr>mounted := False\<rparr> else m)"

definition run :: "Variant \<Rightarrow> Event list \<Rightarrow> Mount \<Rightarrow> Mount" where
  \<comment> \<open>The events of the loop, handled in their order of arrival.\<close>
  "run v es m = foldl (step v) m es"

definition cardSubtitle :: "string \<Rightarrow> Compass \<Rightarrow> string" where
  \<comment> \<open>The first argument is \<open>Platform.OS\<close>.\<close>
  "cardSubtitle os s =
     (if available s = Some False then ''Magnetometer unavailable on this device''
      else if os = ''web'' then ''Compass works best on a real device''
      else (case accuracyHint s of
              Some hint \<Rightarrow> hint
            | None \<Rightarrow> ''Align the top edge with your direction''))"

record Rendered =
  headingText :: int
  cardinalText :: "string option"
  subtitleText :: string
  needleRotation :: real

definition render :: "string \<Rightarrow> Compass \<Rightarrow> Rendered" where
  \<comment> \<open>What the returned element shows of the state.\<close>
  "render os s =
     \<lparr>headingText = math_round (heading s),
      cardinalText = cardinalFromHeading (heading s),
      subtitleText = cardSubtitle os s,
      needleRotation = - rotationDeg s\<rparr>"

section \<open>Normalisation and the remainder operator\<close>

lemma clamp_floor: "clampHeadingDegrees d = d - 360 * of_int \<lfloor>d / 360\<rfloor>"
proof (cases "d / 360 < 0")
  case False
  then have "js_rem d 360 = d - 360 * of_int \<lfloor>d / 360\<rfloor>"
    by (simp add: js_rem_def)
  moreover have "0 \<le> d - 360 * of_int \<lfloor>d / 360\<rfloor>"
    using of_int_floor_le [of "d / 360"] by (simp add: field_simps)
  ultimately show ?thesis
    by (simp add: clampHeadingDegrees_def Let_def)
next
  case True
  then have r: "js_rem d 360 = d - 360 * of_int \<lceil>d / 360\<rceil>"
    by (simp add: js_rem_def)
  show ?thesis
  proof (cases "d / 360 \<in> \<int>")
    case True
    then have "\<lceil>d / 360\<rceil> = \<lfloor>d / 360\<rfloor>"
      by (metis Ints_cases ceiling_of_int floor_of_int)
    moreover have "0 \<le> d - 360 * of_int \<lfloor>d / 360\<rfloor>"
      using of_int_floor_le [of "d / 360"] by (simp add: field_simps)
    ultimately show ?thesis
      using r by (simp add: clampHeadingDegrees_def Let_def)
  next
    case False
    have ne: "of_int \<lfloor>d / 360\<rfloor> \<noteq> d / 360"
      using False by (metis Ints_of_int)
    then have c: "\<lceil>d / 360\<rceil> = \<lfloor>d / 360\<rfloor> + 1"
      using ceiling_altdef [of "d / 360"] by presburger
    have "of_int \<lfloor>d / 360\<rfloor> < d / 360"
      using ne of_int_floor_le [of "d / 360"] by linarith
    then have "d - 360 * of_int \<lceil>d / 360\<rceil> < 0"
      using c floor_correct [of "d / 360"] by (simp add: field_simps)
    then show ?thesis
      using r c by (simp add: clampHeadingDegrees_def Let_def algebra_simps)
  qed
qed

lemma clamp_range: "0 \<le> clampHeadingDegrees d \<and> clampHeadingDegrees d < 360"
proof -
  have "of_int \<lfloor>d / 360\<rfloor> \<le> d / 360" "d / 360 < of_int \<lfloor>d / 360\<rfloor> + 1"
    by linarith+
  then show ?thesis
    unfolding clamp_floor by (simp add: field_simps)
qed

lemma clamp_shift: "clampHeadingDegrees (d + 360 * of_int k) = clampHeadingDegrees d"
proof -
  have "(d + 360 * of_int k) / 360 = d / 360 + of_int k"
    by (simp add: field_simps)
  moreover have "\<lfloor>d / 360 + of_int k\<rfloor> = \<lfloor>d / 360\<rfloor> + k"
    by (rule floor_add_int [symmetric])
  ultimately have "\<lfloor>(d + 360 * of_int k) / 360\<rfloor> = \<lfloor>d / 360\<rfloor> + k"
    by (simp only:)
  then show ?thesis
    unfolding clamp_floor by (simp add: algebra_simps)
qed

lemma clamp_id: "0 \<le> d \<Longrightarrow> d < 360 \<Longrightarrow> clampHeadingDegrees d = d"
proof -
  assume "0 \<le> d" "d < 360"
  then have "\<lfloor>d / 360\<rfloor> = 0"
    by (simp add: floor_eq_iff)
  then show ?thesis
    unfolding clamp_floor by simp
qed

lemma js_rem_nonneg: "0 \<le> a \<Longrightarrow> js_rem a 360 = a - 360 * of_int \<lfloor>a / 360\<rfloor>"
  by (simp add: js_rem_def not_less)

lemma delta_floor:
  "shortestDeltaDegrees a b =
     (let t = clampHeadingDegrees b - clampHeadingDegrees a + 540
      in t - 360 * of_int \<lfloor>t / 360\<rfloor> - 180)"
proof -
  have "0 \<le> clampHeadingDegrees b - clampHeadingDegrees a + 540"
    using clamp_range [of a] clamp_range [of b] by linarith
  then show ?thesis
    by (simp add: shortestDeltaDegrees_def Let_def js_rem_nonneg)
qed

lemma js_rem_lower: "- 360 < js_rem d 360"
proof (cases "d / 360 < 0")
  case True
  have "of_int \<lceil>d / 360\<rceil> < d / 360 + 1" by linarith
  then show ?thesis using True by (simp add: js_rem_def field_simps)
next
  case False
  have "of_int \<lfloor>d / 360\<rfloor> \<le> d / 360" by linarith
  then show ?thesis using False by (simp add: js_rem_def field_simps)
qed

lemma js_rem_shift: "\<exists>k. js_rem d 360 = d + 360 * of_int k"
proof (cases "d / 360 < 0")
  case True
  then have "js_rem d 360 = d + 360 * of_int (- \<lceil>d / 360\<rceil>)" by (simp add: js_rem_def)
  then show ?thesis by blast
next
  case False
  then have "js_rem d 360 = d + 360 * of_int (- \<lfloor>d / 360\<rfloor>)" by (simp add: js_rem_def)
  then show ?thesis by blast
qed

lemma js_rem_nonneg_clamp: "0 \<le> a \<Longrightarrow> js_rem a 360 = clampHeadingDegrees a"
  by (simp add: js_rem_nonneg clamp_floor)

lemma spec_eq: "normalizeDegrees_spec d = clampHeadingDegrees d"
proof -
  obtain k where k: "js_rem d 360 = d + 360 * of_int k" using js_rem_shift by blast
  have "0 \<le> js_rem d 360 + 360" using js_rem_lower [of d] by linarith
  then have "normalizeDegrees_spec d = clampHeadingDegrees (js_rem d 360 + 360)"
    by (simp add: normalizeDegrees_spec_def js_rem_nonneg_clamp)
  also have "js_rem d 360 + 360 = d + 360 * of_int (k + 1)" using k by simp
  also have "clampHeadingDegrees \<dots> = clampHeadingDegrees d" by (rule clamp_shift)
  finally show ?thesis .
qed

lemma floor_eq: "normalizeDegrees_floor d = clampHeadingDegrees d"
proof -
  have "normalizeDegrees_floor d = clampHeadingDegrees (clampHeadingDegrees d + 360)"
    by (simp add: normalizeDegrees_floor_def Let_def clamp_floor)
  also have "\<dots> = clampHeadingDegrees (clampHeadingDegrees d)"
    using clamp_shift [of "clampHeadingDegrees d" 1] by simp
  also have "\<dots> = clampHeadingDegrees d"
    using clamp_range [of d] by (simp add: clamp_id)
  finally show ?thesis .
qed

lemma clamp_clamp_add: "clampHeadingDegrees (clampHeadingDegrees h + t) = clampHeadingDegrees (h + t)"
proof -
  have "clampHeadingDegrees h + t = (h + t) + 360 * of_int (- \<lfloor>h / 360\<rfloor>)"
    by (simp add: clamp_floor)
  then show ?thesis by (simp only: clamp_shift)
qed

lemma clamp_js_rem: "clampHeadingDegrees (js_rem c 360) = clampHeadingDegrees c"
proof -
  obtain k where "js_rem c 360 = c + 360 * of_int k" using js_rem_shift by blast
  then show ?thesis by (simp only: clamp_shift)
qed

section \<open>The shortest delta\<close>

lemma delta_shift: "\<exists>k. shortestDeltaDegrees a b = b - a + 360 * of_int k"
proof -
  define t where "t = clampHeadingDegrees b - clampHeadingDegrees a + 540"
  have "shortestDeltaDegrees a b = t - 360 * of_int \<lfloor>t / 360\<rfloor> - 180"
    by (simp add: delta_floor t_def Let_def)
  also have "\<dots> = b - a + 360 * of_int (\<lfloor>a / 360\<rfloor> - \<lfloor>b / 360\<rfloor> + 1 - \<lfloor>t / 360\<rfloor>)"
    by (simp add: t_def clamp_floor algebra_simps)
  finally show ?thesis by blast
qed

lemma delta_range: "- 180 \<le> shortestDeltaDegrees a b \<and> shortestDeltaDegrees a b < 180"
proof -
  define t where "t = clampHeadingDegrees b - clampHeadingDegrees a + 540"
  have "shortestDeltaDegrees a b = clampHeadingDegrees t - 180"
    by (simp add: delta_floor t_def Let_def clamp_floor)
  then show ?thesis using clamp_range [of t] by linarith
qed


lemma delta_minimal: "\<bar>shortestDeltaDegrees a b\<bar> \<le> \<bar>b - a + 360 * of_int k\<bar>"
proof -
  obtain j where j: "shortestDeltaDegrees a b = b - a + 360 * of_int j" using delta_shift by blast
  define s where "s = shortestDeltaDegrees a b"
  have r: "- 180 \<le> s" "s < 180" using delta_range [of a b] by (simp_all add: s_def)
  have e: "b - a + 360 * of_int k = s + 360 * of_int (k - j)" using j by (simp add: s_def algebra_simps)
  show ?thesis
  proof (cases "k - j = 0")
    case True then show ?thesis using e by (simp add: s_def)
  next
    case False
    then consider "k - j \<ge> 1" | "k - j \<le> -1" by linarith
    then show ?thesis
    proof cases
      case 1
      then have "(1::real) \<le> of_int (k - j)" by (metis of_int_1 of_int_le_iff)
      then have "s + 360 \<le> s + 360 * of_int (k - j)" by simp
      then show ?thesis using r e unfolding s_def [symmetric] by linarith
    next
      case 2
      then have "of_int (k - j) \<le> (-1::real)" by (metis of_int_1 of_int_minus of_int_le_iff)
      then have "s + 360 * of_int (k - j) \<le> s - 360" by simp
      then show ?thesis using r e unfolding s_def [symmetric] by linarith
    qed
  qed
qed

lemma delta_js_rem: "shortestDeltaDegrees (js_rem c 360) h = shortestDeltaDegrees c h"
  by (simp add: shortestDeltaDegrees_def clamp_js_rem)


section \<open>Cardinal labels\<close>

lemma card_period: "cardinalFromHeading (d + 360) = cardinalFromHeading d"
  using clamp_shift [of d 1] by (simp add: cardinalFromHeading_def)

lemma card_N:
  assumes "- (45 / 2) \<le> d - 360 * of_int k" "d - 360 * of_int k < 45 / 2"
  shows "cardinalFromHeading d = Some ''N''"
proof -
  define e where "e = d - 360 * of_int k"
  have lo: "- (45 / 2) \<le> e" and hi: "e < 45 / 2"
    using assms by (simp_all add: e_def)
  have "d = e + 360 * of_int k"
    by (simp add: e_def)
  then have cd: "clampHeadingDegrees d = clampHeadingDegrees e"
    by (simp only: clamp_shift)
  have "math_round (clampHeadingDegrees e / 45) = 0 \<or> math_round (clampHeadingDegrees e / 45) = 8"
  proof (cases "0 \<le> e")
    case True
    then have "clampHeadingDegrees e = e"
      using hi by (simp add: clamp_id)
    moreover have "\<lfloor>e / 45 + 1 / 2\<rfloor> = 0"
      by (rule floor_unique) (use True hi in simp_all)
    ultimately show ?thesis
      by (simp add: math_round_def)
  next
    case False
    have "clampHeadingDegrees e = clampHeadingDegrees (e + 360)"
      using clamp_shift [of e 1] by simp
    also have "\<dots> = e + 360"
      using False lo by (simp add: clamp_id)
    finally have "clampHeadingDegrees e = e + 360" .
    moreover have "\<lfloor>(e + 360) / 45 + 1 / 2\<rfloor> = 8"
      by (rule floor_unique) (use False lo in \<open>simp_all add: field_simps\<close>)
    ultimately show ?thesis
      by (simp add: math_round_def)
  qed
  then show ?thesis
    by (auto simp add: cardinalFromHeading_def cd js_rem_int_def headings_def)
qed

lemma card_eval:
  "cardinalFromHeading 90 = Some ''E''"
  "cardinalFromHeading 180 = Some ''S''"
  "cardinalFromHeading 270 = Some ''W''"
  "cardinalFromHeading 0 = Some ''N''"
  "cardinalFromHeading (45 / 2) = Some ''NE''"
  by (simp_all add: cardinalFromHeading_def clamp_floor math_round_def js_rem_int_def
      headings_def)

section \<open>The two heading conventions\<close>

lemma arctan_swap:
  assumes "u \<noteq> 0" "v \<noteq> 0"
  shows "arctan (- u / v) = arctan (v / u) - sgn (v / u) * pi / 2"
proof -
  have "v / u \<noteq> 0" using assms by simp
  then have "arctan (1 / (v / u)) = sgn (v / u) * pi / 2 - arctan (v / u)"
    by (rule arctan_inverse)
  moreover have "arctan (- u / v) = - arctan (1 / (v / u))"
    by (simp add: arctan_minus)
  ultimately show ?thesis by simp
qed

lemma atan2_quarter:
  assumes "u \<noteq> 0 \<or> v \<noteq> 0"
  shows "\<exists>k. math_atan2 (- u) v = math_atan2 v u - pi / 2 + 2 * pi * of_int k"
proof -
  have "math_atan2 (- u) v = math_atan2 v u - pi / 2 + 2 * pi * of_int 0
      \<or> math_atan2 (- u) v = math_atan2 v u - pi / 2 + 2 * pi * of_int 1"
  proof (cases "u = 0 \<or> v = 0")
    case True
    then show ?thesis
      using assms by (auto simp add: math_atan2_def)
  next
    case False
    then have n: "u \<noteq> 0" "v \<noteq> 0"
      by simp_all
    note sw = arctan_swap [OF n]
    consider "0 < u" "0 < v" | "0 < u" "v < 0" | "u < 0" "0 < v" | "u < 0" "v < 0"
      using n by linarith
    then show ?thesis
    proof cases
      case 1
      then have "sgn (v / u) = 1"
        by simp
      then show ?thesis
        using 1 sw by (simp add: math_atan2_def)
    next
      case 2
      then have "sgn (v / u) = - 1"
        by (simp add: divide_neg_pos)
      then show ?thesis
        using 2 sw by (simp add: math_atan2_def)
    next
      case 3
      then have "sgn (v / u) = - 1"
        by (simp add: divide_pos_neg)
      then show ?thesis
        using 3 sw by (simp add: math_atan2_def)
    next
      case 4
      then have "sgn (v / u) = 1"
        by (simp add: divide_neg_neg)
      then show ?thesis
        using 4 sw by (simp add: math_atan2_def)
    qed
  qed
  then show ?thesis
    by blast
qed

lemma clamp_half_turn: "clampHeadingDegrees (h + 180) \<noteq> clampHeadingDegrees h"
proof -
  define c where "c = clampHeadingDegrees h"
  have r: "0 \<le> c" "c < 360" using clamp_range [of h] by (simp_all add: c_def)
  have "h = c + 360 * of_int \<lfloor>h / 360\<rfloor>" by (simp add: c_def clamp_floor)
  then have "h + 180 = (c + 180) + 360 * of_int \<lfloor>h / 360\<rfloor>" by simp
  then have e: "clampHeadingDegrees (h + 180) = clampHeadingDegrees (c + 180)"
    by (simp only: clamp_shift)
  show ?thesis
  proof (cases "c < 180")
    case True
    then have "clampHeadingDegrees (c + 180) = c + 180" using r by (simp add: clamp_id)
    then show ?thesis using e by (simp add: c_def)
  next
    case False
    have "c + 180 = (c - 180) + 360 * of_int 1"
      by simp
    then have "clampHeadingDegrees (c + 180) = clampHeadingDegrees (c - 180)"
      by (simp only: clamp_shift)
    also have "\<dots> = c - 180"
      using False r by (simp add: clamp_id)
    finally show ?thesis
      using e by (simp add: c_def)
  qed
qed

lemma heading_half_turn:
  assumes "x r \<noteq> 0 \<or> y r \<noteq> 0"
  shows "headingFromMagnetometer_v2 r = clampHeadingDegrees (headingFromMagnetometer_v1 r + 180)
     \<and> headingFromMagnetometer_v2 r \<noteq> headingFromMagnetometer_v1 r"
proof -
  define t where "t = math_atan2 (y r) (x r) * 180 / pi"
  obtain k where "math_atan2 (- x r) (y r) = math_atan2 (y r) (x r) - pi / 2 + 2 * pi * of_int k"
    using atan2_quarter [OF assms] by blast
  then have "math_atan2 (- x r) (y r) * 180 / pi = (t + 90 + 180) + 360 * of_int (k - 1)"
    by (simp add: t_def field_simps)
  then have "headingFromMagnetometer_v2 r = clampHeadingDegrees ((t + 90 + 180) + 360 * of_int (k - 1))"
    by (simp add: headingFromMagnetometer_v2_def Let_def)
  also have "\<dots> = clampHeadingDegrees (t + 90 + 180)" by (rule clamp_shift)
  also have "\<dots> = clampHeadingDegrees (clampHeadingDegrees (t + 90) + 180)"
    by (simp only: clamp_clamp_add)
  finally have a: "headingFromMagnetometer_v2 r = clampHeadingDegrees (headingFromMagnetometer_v1 r + 180)"
    by (simp add: headingFromMagnetometer_v1_def Let_def t_def)
  have "clampHeadingDegrees (headingFromMagnetometer_v1 r + 180) = clampHeadingDegrees (t + 90 + 180)"
    by (simp add: headingFromMagnetometer_v1_def Let_def t_def clamp_clamp_add)
  moreover have "clampHeadingDegrees (t + 90 + 180) \<noteq> clampHeadingDegrees (t + 90)"
    by (rule clamp_half_turn)
  ultimately have "clampHeadingDegrees (headingFromMagnetometer_v1 r + 180) \<noteq> headingFromMagnetometer_v1 r"
    by (simp add: headingFromMagnetometer_v1_def Let_def t_def)
  then show ?thesis using a by simp
qed


section \<open>The listener\<close>

lemma target_v1: "rotationTarget (onSample_v1 d s) =
   rotationDeg s + shortestDeltaDegrees (js_rem (rotationDeg s) 360) (headingFromMagnetometer_v1 d)"
  by (simp add: onSample_v1_def Let_def delta_js_rem)

lemma target_v2: "rotationTarget (onSample_v2 d s) =
   js_rem (rotationDeg s) 360 + shortestDeltaDegrees (js_rem (rotationDeg s) 360) (headingFromMagnetometer_v2 d)"
  by (simp add: onSample_v2_def Let_def)


lemma hint_v1:
  "accuracyHint (onSample_v1 d s) =
    (if sqrt (x d * x d + y d * y d + z d * z d) < 15 \<or> sqrt (x d * x d + y d * y d + z d * z d) > 80
     then Some calibrationMessage else None)"
  by (simp add: onSample_v1_def Let_def)

lemma hint_v2:
  "accuracyHint (onSample_v2 d s) =
    (if sqrt ((x d)\<^sup>2 + (y d)\<^sup>2 + (z d)\<^sup>2) < 25 \<or> sqrt ((x d)\<^sup>2 + (y d)\<^sup>2 + (z d)\<^sup>2) > 65
     then Some calibrationMessage else None)"
  by (simp add: onSample_v2_def Let_def)

section \<open>The lifecycle of a mount\<close>

lemma run_append: "run v (es @ e # fs) m = run v fs (step v (run v es m) e)"
  by (simp add: run_def)

lemma settle_initial: "settle initialCompass = initialCompass"
  by (simp add: settle_def initialCompass_def)

lemma before_probe:
  assumes "ProbeResolved True \<notin> set es" "\<not> listening m"
    and "probePending m \<and> compass m = initialCompass
       \<or> \<not> probePending m \<and> compass m = initialCompass\<lparr>available := Some False\<rparr>"
  shows "\<not> listening (run v es m)
     \<and> (probePending (run v es m) \<and> compass (run v es m) = initialCompass
       \<or> \<not> probePending (run v es m)
         \<and> compass (run v es m) = initialCompass\<lparr>available := Some False\<rparr>)"
  using assms
proof (induction es arbitrary: m)
  case Nil
  then show ?case
    by (simp add: run_def)
next
  case (Cons e es)
  have "\<not> listening (step v m e)
      \<and> (probePending (step v m e) \<and> compass (step v m e) = initialCompass
        \<or> \<not> probePending (step v m e)
          \<and> compass (step v m e) = initialCompass\<lparr>available := Some False\<rparr>)"
  proof (cases e)
    case (ProbeResolved b)
    then have "\<not> b"
      using Cons.prems(1) by auto
    then show ?thesis
      using Cons.prems(2,3) ProbeResolved by (auto simp add: probeResolved_def Let_def)
  next
    case (Sample sx sy sz)
    then show ?thesis
      using Cons.prems(2,3) by simp
  next
    case AnimationSettled
    then show ?thesis
      using Cons.prems(2,3) by (auto simp add: settle_def initialCompass_def)
  next
    case Unmount
    then show ?thesis
      using Cons.prems(2,3) by (auto simp add: cleanup_def)
  qed
  moreover have "ProbeResolved True \<notin> set es"
    using Cons.prems(1) by simp
  ultimately show ?case
    using Cons.IH [of "step v m e"] by (simp add: run_def)
qed

lemma after_unavailable:
  assumes "\<not> listening m" "\<not> probePending m" "rotationTarget (compass m) = rotationDeg (compass m)"
  shows "compass (run v es m) = compass m \<and> \<not> listening (run v es m)"
  using assms
proof (induction es arbitrary: m)
  case Nil
  then show ?case
    by (simp add: run_def)
next
  case (Cons e es)
  have "\<not> listening (step v m e) \<and> \<not> probePending (step v m e) \<and> compass (step v m e) = compass m"
    using Cons.prems by (cases e) (simp_all add: cleanup_def settle_def)
  then show ?case
    using Cons.IH [of "step v m e"] Cons.prems(3) by (simp add: run_def)
qed

lemma unavailable_compass:
  assumes "ProbeResolved True \<notin> set es"
  shows "compass (run v (es @ ProbeResolved False # fs) mount) = initialCompass\<lparr>available := Some False\<rparr>
     \<and> \<not> listening (run v (es @ ProbeResolved False # fs) mount)"
proof -
  define m where "m = step v (run v es mount) (ProbeResolved False)"
  have b: "\<not> listening (run v es mount)
     \<and> (probePending (run v es mount) \<and> compass (run v es mount) = initialCompass
       \<or> \<not> probePending (run v es mount)
         \<and> compass (run v es mount) = initialCompass\<lparr>available := Some False\<rparr>)"
    by (rule before_probe [OF assms]) (simp_all add: mount_def)
  then have m: "\<not> listening m" "\<not> probePending m"
    "compass m = initialCompass\<lparr>available := Some False\<rparr>"
    by (auto simp add: m_def probeResolved_def Let_def)
  then have "rotationTarget (compass m) = rotationDeg (compass m)"
    by (simp add: initialCompass_def)
  then have "compass (run v fs m) = compass m \<and> \<not> listening (run v fs m)"
    using m(1,2) by (rule after_unavailable [rotated 2])
  then show ?thesis
    using m(3) by (simp add: run_append m_def)
qed

lemma teardown_invariant:
  assumes "\<not> probePending m" "listening m \<longrightarrow> sub m \<and> mounted m"
  shows "\<not> probePending (run v es m) \<and> (listening (run v es m) \<longrightarrow> sub (run v es m) \<and> mounted (run v es m))"
  using assms
proof (induction es arbitrary: m)
  case Nil
  then show ?case
    by (simp add: run_def)
next
  case (Cons e es)
  have "\<not> probePending (step v m e) \<and> (listening (step v m e) \<longrightarrow> sub (step v m e) \<and> mounted (step v m e))"
    using Cons.prems by (cases e) (auto simp add: cleanup_def)
  then show ?case
    using Cons.IH [of "step v m e"] by (simp add: run_def)
qed

lemma no_listener_stays:
  assumes "\<not> listening m" "\<not> probePending m"
  shows "\<not> listening (run v es m)"
  using assms
proof (induction es arbitrary: m)
  case Nil
  then show ?case
    by (simp add: run_def)
next
  case (Cons e es)
  have "\<not> listening (step v m e) \<and> \<not> probePending (step v m e)"
    using Cons.prems by (cases e) (simp_all add: cleanup_def)
  then show ?case
    using Cons.IH [of "step v m e"] by (simp add: run_def)
qed

lemma teardown_after_probe:
  "\<not> listening (run v (ProbeResolved b # es @ Unmount # fs) mount)"
proof -
  define m0 where "m0 = step v mount (ProbeResolved b)"
  define m1 where "m1 = run v es m0"
  define m2 where "m2 = step v m1 Unmount"
  have "\<not> probePending m0" "listening m0 \<longrightarrow> sub m0 \<and> mounted m0"
    by (simp_all add: m0_def mount_def probeResolved_def Let_def)
  then have "\<not> probePending m1 \<and> (listening m1 \<longrightarrow> sub m1 \<and> mounted m1)"
    unfolding m1_def by (rule teardown_invariant)
  then have "\<not> listening m2" "\<not> probePending m2"
    by (auto simp add: m2_def cleanup_def)
  then have "\<not> listening (run v fs m2)"
    by (rule no_listener_stays)
  moreover have "run v (ProbeResolved b # es @ Unmount # fs) mount = run v fs m2"
    by (simp add: run_def m2_def m1_def m0_def)
  ultimately show ?thesis
    by simp
qed

section \<open>Concrete samples\<close>

lemma heading_v2_eval:
  "headingFromMagnetometer_v2 \<lparr>x = - 1, y = 0, z = 0\<rparr> = 90"
  "headingFromMagnetometer_v2 \<lparr>x = 0, y = - 1, z = 0\<rparr> = 180"
  "headingFromMagnetometer_v2 \<lparr>x = 1, y = 0, z = 0\<rparr> = 270"
  "headingFromMagnetometer_v2 \<lparr>x = 0, y = 1, z = 0\<rparr> = 0"
  by (simp_all add: headingFromMagnetometer_v2_def math_atan2_def clamp_floor)

lemma heading_v1_eval:
  "headingFromMagnetometer_v1 \<lparr>x = 1, y = 0, z = 0\<rparr> = 90"
  "headingFromMagnetometer_v1 \<lparr>x = 0, y = 1, z = 0\<rparr> = 180"
  "headingFromMagnetometer_v1 \<lparr>x = - 1, y = 0, z = 0\<rparr> = 270"
  "headingFromMagnetometer_v1 \<lparr>x = 0, y = - 1, z = 0\<rparr> = 0"
  by (simp_all add: headingFromMagnetometer_v1_def math_atan2_def clamp_floor)

lemma delta_eval:
  "shortestDeltaDegrees 0 90 = 90"
  "shortestDeltaDegrees 90 180 = 90"
  "shortestDeltaDegrees 180 270 = 90"
  "shortestDeltaDegrees 270 0 = 90"
  "shortestDeltaDegrees 360 90 = 90"
  "shortestDeltaDegrees 0 270 = - 90"
  by (simp_all add: delta_floor clamp_floor)

lemma js_rem_eval:
  "js_rem 0 360 = 0" "js_rem 90 360 = 90" "js_rem 180 360 = 180" "js_rem 270 360 = 270"
  "js_rem 360 360 = 0"
  by (simp_all add: js_rem_def)

lemma rot_v1: "rotationDeg (onSample_v1 d s) = rotationDeg s"
  by (simp add: onSample_v1_def Let_def)

lemma rot_v2: "rotationDeg (onSample_v2 d s) = rotationDeg s"
  by (simp add: onSample_v2_def Let_def)

lemma sqrt_eval: "sqrt 100 = 10" "sqrt 1600 = 40" "sqrt 8100 = 90"
  using real_sqrt_abs [of 10] real_sqrt_abs [of 40] real_sqrt_abs [of 90] by simp_all

text \<open>
  In the first variant the target is not wrapped: four quarter turns and one more reach 450,
  and a quarter turn the other way goes below 0.
\<close>

lemma v1_accumulates:
  "rotationTarget (compass (run V1 [ProbeResolved True,
        Sample 1 0 0, AnimationSettled, Sample 0 1 0, AnimationSettled,
        Sample (- 1) 0 0, AnimationSettled, Sample 0 (- 1) 0, AnimationSettled,
        Sample 1 0 0] mount)) = 450"
  "rotationTarget (compass (run V1 [ProbeResolved True, Sample (- 1) 0 0] mount)) = - 90"
  by (simp_all add: run_def mount_def probeResolved_def Let_def initialCompass_def settle_def
      target_v1 rot_v1 heading_v1_eval delta_eval js_rem_eval)

section \<open>Repeating a sample\<close>




section \<open>Rounding at concrete doubles\<close>

lemma f64_round_eval:
  assumes "2 powr of_int e \<le> \<bar>t\<bar>" "\<bar>t\<bar> < 2 powr (of_int e + 1)" "- 1022 \<le> e"
  shows "f64_round t = of_int (round_ties_even (t / 2 powr (of_int e - 52))) * 2 powr (of_int e - 52)"
proof -
  have "0 < (2::real) powr of_int e"
    by simp
  then have p: "0 < \<bar>t\<bar>"
    using assms(1) by linarith
  then have "\<lfloor>log 2 \<bar>t\<bar>\<rfloor> = e"
    using assms(1,2) by (simp add: floor_log_eq_powr_iff)
  then show ?thesis
    using p assms(3) by (simp add: f64_round_def Let_def max_def)
qed

lemma f64_round_exact:
  "f64_round (- 360) = - 360" "f64_round 180 = 180" "f64_round 0 = 0"
  using f64_round_eval [of 8 "- 360"] f64_round_eval [of 7 180]
  by (simp_all add: round_ties_even_def Let_def powr_neg_numeral f64_round_def)

lemma tiny_negative:
  assumes "d = - (1 / 2 ^ 60)"
  shows "d < 0" "js_rem d 360 = d" "f64_round (d + 360) = 360" "f64_round d = d"
    "clampHeadingDegrees d = 360 - 1 / 2 ^ 60"
proof -
  show "d < 0"
    by (simp add: assms)
  have "\<lceil>d / 360\<rceil> = 0"
    by (rule ceiling_unique) (simp_all add: assms)
  then show r: "js_rem d 360 = d"
    using \<open>d < 0\<close> by (simp add: js_rem_def)
  show "f64_round (d + 360) = 360"
    unfolding assms using f64_round_eval [of 8 "- (1 / 2 ^ 60) + 360"]
    by (simp add: round_ties_even_def Let_def powr_neg_numeral)
  show "f64_round d = d"
    unfolding assms using f64_round_eval [of "- 60" "- (1 / 2 ^ 60)"]
    by (simp add: round_ties_even_def Let_def powr_neg_numeral)
  show "clampHeadingDegrees d = 360 - 1 / 2 ^ 60"
    using r \<open>d < 0\<close> by (simp add: clampHeadingDegrees_def assms)
qed

lemma clamp_f64_zero: "clampHeadingDegrees_f64 0 = 0"
  by (simp add: clampHeadingDegrees_f64_def js_rem_def)

lemma clamp_f64_tiny:
  assumes "d = - (1 / 2 ^ 60)"
  shows "clampHeadingDegrees_f64 d = 360"
  using tiny_negative(1-3) [OF assms] by (simp add: clampHeadingDegrees_f64_def)

lemma spec_f64_tiny:
  assumes "d = - (1 / 2 ^ 60)"
  shows "normalizeDegrees_spec_f64 d = 0"
  using tiny_negative(2,3) [OF assms] by (simp add: normalizeDegrees_spec_f64_def js_rem_def)

lemma delta_f64_tiny:
  assumes "d = - (1 / 2 ^ 60)"
  shows "shortestDeltaDegrees_f64 d 0 = 0"
  by (simp add: shortestDeltaDegrees_f64_def clamp_f64_tiny [OF assms] clamp_f64_zero
      f64_round_exact js_rem_def)

lemma sum_f64_tiny:
  assumes "d = - (1 / 2 ^ 60)"
  shows "clampHeadingDegrees_f64 (f64_round (d + shortestDeltaDegrees_f64 d 0)) = 360"
  by (simp add: delta_f64_tiny [OF assms] tiny_negative(4) [OF assms] clamp_f64_tiny [OF assms])

text \<open>The double nearest to -42.82 is \<open>-6026379251375145 / 2^47\<close>.\<close>

lemma ordinary_angle:
  assumes "a = - (6026379251375145 / 2 ^ 47)"
  shows "clampHeadingDegrees_f64 a = 5579889569567867 / 2 ^ 44"
    "shortestDeltaDegrees_f64 a 0 = 753297406421893 / 2 ^ 44"
    "f64_round (a + shortestDeltaDegrees_f64 a 0) = - (1 / 2 ^ 47)"
    "clampHeadingDegrees_f64 (f64_round (a + shortestDeltaDegrees_f64 a 0)) = 360"
proof -
  have neg: "a < 0"
    by (simp add: assms)
  have "\<lceil>a / 360\<rceil> = 0"
    by (rule ceiling_unique) (simp_all add: assms)
  then have rem: "js_rem a 360 = a"
    using neg by (simp add: js_rem_def)
  have "f64_round (a + 360) = 5579889569567867 / 2 ^ 44"
    unfolding assms using f64_round_eval [of 8 "- (6026379251375145 / 2 ^ 47) + 360"]
    by (simp add: round_ties_even_def Let_def powr_neg_numeral)
  then show c: "clampHeadingDegrees_f64 a = 5579889569567867 / 2 ^ 44"
    using neg rem by (simp add: clampHeadingDegrees_f64_def)
  have t1: "f64_round (0 - 5579889569567867 / 2 ^ 44) = - (5579889569567867 / 2 ^ 44)"
    using f64_round_eval [of 8 "0 - 5579889569567867 / 2 ^ 44"]
    by (simp add: round_ties_even_def Let_def powr_neg_numeral)
  have t2: "f64_round (- (5579889569567867 / 2 ^ 44) + 540) = 3919890894416773 / 2 ^ 44"
    using f64_round_eval [of 7 "- (5579889569567867 / 2 ^ 44) + 540"]
    by (simp add: round_ties_even_def Let_def powr_neg_numeral)
  have "\<lfloor>(3919890894416773 / 2 ^ 44) / (360::real)\<rfloor> = 0"
    by (rule floor_unique) simp_all
  then have r: "js_rem (3919890894416773 / 2 ^ 44) 360 = 3919890894416773 / 2 ^ 44"
    by (simp add: js_rem_def)
  have t3: "f64_round (3919890894416773 / 2 ^ 44 - 180) = 753297406421893 / 2 ^ 44"
    using f64_round_eval [of 5 "3919890894416773 / 2 ^ 44 - 180"]
    by (simp add: round_ties_even_def Let_def powr_neg_numeral)
  show d: "shortestDeltaDegrees_f64 a 0 = 753297406421893 / 2 ^ 44"
    unfolding shortestDeltaDegrees_f64_def Let_def c clamp_f64_zero
    by (simp only: t1 t2 r t3)
  have "f64_round (- (6026379251375145 / 2 ^ 47) + 753297406421893 / 2 ^ 44) = - (1 / 2 ^ 47)"
    using f64_round_eval [of "- 47" "- (6026379251375145 / 2 ^ 47) + 753297406421893 / 2 ^ 44"]
    by (simp add: round_ties_even_def Let_def powr_neg_numeral)
  then show s: "f64_round (a + shortestDeltaDegrees_f64 a 0) = - (1 / 2 ^ 47)"
    unfolding d by (simp only: assms)
  have "\<lceil>- (1 / 2 ^ 47) / (360::real)\<rceil> = 0"
    by (rule ceiling_unique) simp_all
  then have "js_rem (- (1 / 2 ^ 47)) 360 = - (1 / 2 ^ 47)"
    by (simp add: js_rem_def)
  moreover have "f64_round (- (1 / 2 ^ 47) + 360) = 360"
    using f64_round_eval [of 8 "- (1 / 2 ^ 47) + 360"]
    by (simp add: round_ties_even_def Let_def powr_neg_numeral)
  ultimately have "clampHeadingDegrees_f64 (- (1 / 2 ^ 47)) = 360"
    by (simp add: clampHeadingDegrees_f64_def)
  then show "clampHeadingDegrees_f64 (f64_round (a + shortestDeltaDegrees_f64 a 0)) = 360"
    by (simp only: s)
qed

section \<open>Claims\<close>

text \<open>
  C7. The claim: for every input \<open>d\<close> the normalised angle lies in \<open>[0, 360)\<close>, and the
  code's formula gives the value of the specification's formula
  \<open>((d mod 360) + 360) mod 360\<close>. In exact arithmetic both hold (\<open>clamp_range\<close>,
  \<open>spec_eq\<close>, \<open>floor_eq\<close>). On doubles, at \<open>d = -2^(-60)\<close> the remainder is \<open>d\<close> itself,
  negative, and the sum \<open>d + 360\<close> rounds to 360: the code returns 360, which is outside
  \<open>[0, 360)\<close>, where the specification's formula gives 0 and exact arithmetic
  \<open>360 - 2^(-60)\<close>.
\<close>

theorem clamp_tiny_negative_returns_360:
  "clampHeadingDegrees_f64 (- (1 / 2 ^ 60)) = 360
     \<and> normalizeDegrees_spec_f64 (- (1 / 2 ^ 60)) = 0
     \<and> clampHeadingDegrees (- (1 / 2 ^ 60)) = 360 - 1 / 2 ^ 60"
  using clamp_f64_tiny [OF refl] spec_f64_tiny [OF refl] tiny_negative(5) [OF refl]
  by (intro conjI)

text \<open>
  C6. The claim: for all \<open>a\<close> and \<open>b\<close>, \<open>a\<close> plus the shortest delta from \<open>a\<close> to \<open>b\<close>
  normalises to the same angle as \<open>b\<close>. In exact arithmetic it holds
  (\<open>clamp_add_delta\<close>). On doubles, from \<open>a = -42.82\<close> to \<open>b = 0\<close> the delta is
  42.81999999999999, the sum \<open>a + delta\<close> is \<open>-2^(-47)\<close>, and normalising that returns 360
  while \<open>b\<close> normalises to 0: a whole turn apart. The same happens from \<open>a = -2^(-60)\<close>.
\<close>

theorem delta_misses_target_by_a_turn:
  "shortestDeltaDegrees_f64 (- (6026379251375145 / 2 ^ 47)) 0 = 753297406421893 / 2 ^ 44
     \<and> f64_round (- (6026379251375145 / 2 ^ 47)
          + shortestDeltaDegrees_f64 (- (6026379251375145 / 2 ^ 47)) 0) = - (1 / 2 ^ 47)
     \<and> clampHeadingDegrees_f64 (f64_round (- (6026379251375145 / 2 ^ 47)
          + shortestDeltaDegrees_f64 (- (6026379251375145 / 2 ^ 47)) 0)) = 360
     \<and> clampHeadingDegrees_f64
          (f64_round (- (1 / 2 ^ 60) + shortestDeltaDegrees_f64 (- (1 / 2 ^ 60)) 0)) = 360
     \<and> clampHeadingDegrees_f64 0 = 0"
  using ordinary_angle(2-4) [OF refl] sum_f64_tiny [OF refl] clamp_f64_zero
  by (intro conjI)

text \<open>
  C1, as stated: the shortest delta lies in \<open>(-180, 180]\<close>. It does not at a half turn:
  from 0 to 180 the code returns -180.
\<close>

theorem delta_half_turn_counterexample:
  "\<not> (- 180 < shortestDeltaDegrees 0 180 \<and> shortestDeltaDegrees 0 180 \<le> 180)"
  by (simp add: delta_floor clamp_floor)

text \<open>
  C1, amended: for all reals \<open>a\<close> and \<open>b\<close> the shortest delta, computed as
  \<open>((normalize(b) - normalize(a) + 540) mod 360) - 180\<close>, lies in \<open>[-180, 180)\<close>, differs
  from \<open>b - a\<close> by a whole number of turns, and no rotation from \<open>a\<close> to \<open>b\<close> is shorter;
  from 10 to 350 it is -20.
\<close>

theorem delta_minimal_rotation:
  "shortestDeltaDegrees a b
       = js_rem (clampHeadingDegrees b - clampHeadingDegrees a + 540) 360 - 180
     \<and> - 180 \<le> shortestDeltaDegrees a b \<and> shortestDeltaDegrees a b < 180
     \<and> (\<exists>k. shortestDeltaDegrees a b = b - a + 360 * of_int k)
     \<and> (\<forall>k. \<bar>shortestDeltaDegrees a b\<bar> \<le> \<bar>b - a + 360 * of_int k\<bar>)
     \<and> shortestDeltaDegrees 10 350 = - 20"
proof -
  have "shortestDeltaDegrees a b
      = js_rem (clampHeadingDegrees b - clampHeadingDegrees a + 540) 360 - 180"
    by (simp add: shortestDeltaDegrees_def)
  moreover have "shortestDeltaDegrees 10 350 = - 20"
    by (simp add: delta_floor clamp_floor)
  ultimately show ?thesis
    using delta_range [of a b] delta_shift [of a b] delta_minimal [of a b] by blast
qed

text \<open>
  C4, as stated: every heading within 22.5 degrees of 0 is labelled N. The heading 22.5 is
  within 22.5 degrees of 0 and is labelled NE, since the tie 0.5 rounds up to 1.
\<close>

theorem cardinal_tie_counterexample:
  "\<bar>45 / 2 - 0\<bar> \<le> (45 / 2 :: real) \<and> cardinalFromHeading (45 / 2) \<noteq> Some ''N''"
  by (simp add: card_eval)

text \<open>
  C4, amended: the label has period 360; every heading that is, modulo 360, at least -22.5
  and less than 22.5 is labelled N; 90 is E, 180 is S and 270 is W.
\<close>

theorem cardinal_periodic_and_sectors:
  "cardinalFromHeading (d + 360) = cardinalFromHeading d
     \<and> (- (45 / 2) \<le> e - 360 * of_int k \<and> e - 360 * of_int k < 45 / 2
          \<longrightarrow> cardinalFromHeading e = Some ''N'')
     \<and> cardinalFromHeading 90 = Some ''E''
     \<and> cardinalFromHeading 180 = Some ''S''
     \<and> cardinalFromHeading 270 = Some ''W''"
  using card_N [of e k] by (simp add: card_period card_eval)

theorem cardinal_periodic_and_sectors_witness:
  "- (45 / 2) \<le> (675 / 2 :: real) - 360 * of_int 1 \<and> (675 / 2 :: real) - 360 * of_int 1 < 45 / 2
     \<and> cardinalFromHeading (675 / 2) = Some ''N''
     \<and> cardinalFromHeading (10 + 360) = cardinalFromHeading 10"
  using cardinal_periodic_and_sectors [of 10 "675 / 2" 1] by simp

text \<open>
  C5. The two variants never give the same heading, and for every sample whose
  horizontal part \<open>(x, y)\<close> is not \<open>(0, 0)\<close> the heading of the second variant is the
  heading of the first plus 180 degrees, modulo 360.
\<close>

theorem variants_differ_by_half_turn:
  "((x r, y r) \<noteq> (0, 0) \<longrightarrow>
       headingFromMagnetometer_v2 r = clampHeadingDegrees (headingFromMagnetometer_v1 r + 180))
     \<and> headingFromMagnetometer_v2 r \<noteq> headingFromMagnetometer_v1 r"
proof (cases "x r \<noteq> 0 \<or> y r \<noteq> 0")
  case True
  then show ?thesis
    using heading_half_turn [of r] by simp
next
  case False
  then have "headingFromMagnetometer_v1 r = 90" "headingFromMagnetometer_v2 r = 0"
    by (simp_all add: headingFromMagnetometer_v1_def headingFromMagnetometer_v2_def
        math_atan2_def clamp_floor)
  then show ?thesis
    using False by simp
qed

theorem variants_differ_by_half_turn_witness:
  "(x \<lparr>x = 1, y = 0, z = 0\<rparr>, y \<lparr>x = 1, y = 0, z = 0\<rparr>) \<noteq> (0 :: real, 0 :: real)
     \<and> headingFromMagnetometer_v1 \<lparr>x = 1, y = 0, z = 0\<rparr> = 90
     \<and> headingFromMagnetometer_v2 \<lparr>x = 1, y = 0, z = 0\<rparr> = 270"
proof -
  have "headingFromMagnetometer_v1 \<lparr>x = 1, y = 0, z = 0\<rparr> = 90"
    by (simp add: headingFromMagnetometer_v1_def math_atan2_def clamp_floor)
  moreover have "clampHeadingDegrees (90 + 180) = 270"
    by (simp add: clamp_floor)
  ultimately show ?thesis
    using variants_differ_by_half_turn [of "\<lparr>x = 1, y = 0, z = 0\<rparr>"] by simp
qed

text \<open>
  C3. The claim: at every sample the new rotation target is the previous rotation value,
  unwrapped, plus the shortest delta from that value modulo 360 to the heading, so the
  rotation can grow beyond 360. The first variant does so (\<open>target_v1\<close>,
  \<open>v1_accumulates\<close>). The second variant adds the delta to the wrapped value: after four
  quarter turns the rotation is 360, and a sample of heading 90 then sets the target 90,
  where the claim gives 450.
\<close>

theorem v2_rotation_wraps:
  "(let s = compass (run V2 [ProbeResolved True,
              Sample (- 1) 0 0, AnimationSettled, Sample 0 (- 1) 0, AnimationSettled,
              Sample 1 0 0, AnimationSettled, Sample 0 1 0, AnimationSettled] mount);
        d = \<lparr>x = - 1, y = 0, z = 0\<rparr>
    in rotationDeg s = 360
      \<and> rotationDeg s
          + shortestDeltaDegrees (js_rem (rotationDeg s) 360) (headingFromMagnetometer_v2 d)
        = 450
      \<and> rotationTarget (onSample_v2 d s) = 90)"
  by (simp add: run_def mount_def probeResolved_def Let_def initialCompass_def settle_def
      target_v2 rot_v2 heading_v2_eval delta_eval js_rem_eval)

text \<open>
  C2. The claim: whenever the screen is unmounted, also before the availability probe has
  resolved, no listener of the magnetometer stays registered and no later sample changes
  the state. When the probe has resolved before the unmount, the cleanup removes the
  listener (\<open>teardown_after_probe\<close>). When the unmount comes first, the cleanup finds
  \<open>sub\<close> empty; the probe then resolves to true, the listener is added with nothing left
  to remove it, and the next sample sets a new rotation target. Both variants do so.
\<close>

theorem unmount_before_probe_orphans_listener:
  "\<not> mounted (run V1 [Unmount, ProbeResolved True] mount)
     \<and> listening (run V1 [Unmount, ProbeResolved True] mount)
     \<and> rotationTarget (compass (run V1 [Unmount, ProbeResolved True] mount)) = 0
     \<and> rotationTarget (compass (run V1 [Unmount, ProbeResolved True, Sample 1 0 0] mount)) = 90
     \<and> \<not> mounted (run V2 [Unmount, ProbeResolved True] mount)
     \<and> listening (run V2 [Unmount, ProbeResolved True] mount)
     \<and> rotationTarget (compass (run V2 [Unmount, ProbeResolved True] mount)) = 0
     \<and> rotationTarget (compass (run V2 [Unmount, ProbeResolved True, Sample (- 1) 0 0] mount)) = 90"
  by (simp add: run_def mount_def cleanup_def probeResolved_def Let_def initialCompass_def
      target_v1 target_v2 heading_v1_eval heading_v2_eval delta_eval js_rem_eval)


text \<open>
  C9. For every sample and state, with \<open>m\<close> the magnitude \<open>sqrt(x^2 + y^2 + z^2)\<close>: when
  \<open>m\<close> is 10 the listener sets the hint to the advisory message, when \<open>m\<close> is 40 it
  clears the hint, when \<open>m\<close> is 90 it sets the hint again; under the thresholds of the
  first variant (15 and 80) and of the second (25 and 65).
\<close>

theorem calibration_hint_by_magnitude:
  "(sqrt ((x d)\<^sup>2 + (y d)\<^sup>2 + (z d)\<^sup>2) = 10 \<longrightarrow>
        accuracyHint (onSample_v1 d s) = Some calibrationMessage
      \<and> accuracyHint (onSample_v2 d s) = Some calibrationMessage)
     \<and> (sqrt ((x d)\<^sup>2 + (y d)\<^sup>2 + (z d)\<^sup>2) = 40 \<longrightarrow>
        accuracyHint (onSample_v1 d s) = None \<and> accuracyHint (onSample_v2 d s) = None)
     \<and> (sqrt ((x d)\<^sup>2 + (y d)\<^sup>2 + (z d)\<^sup>2) = 90 \<longrightarrow>
        accuracyHint (onSample_v1 d s) = Some calibrationMessage
      \<and> accuracyHint (onSample_v2 d s) = Some calibrationMessage)"
  by (simp add: hint_v1 hint_v2 power2_eq_square)

theorem calibration_hint_by_magnitude_witness:
  "sqrt ((x \<lparr>x = 10, y = 0, z = 0\<rparr>)\<^sup>2 + (y \<lparr>x = 10, y = 0, z = 0\<rparr>)\<^sup>2
        + (z \<lparr>x = 10, y = 0, z = 0\<rparr>)\<^sup>2) = 10
     \<and> accuracyHint (onSample_v1 \<lparr>x = 10, y = 0, z = 0\<rparr> initialCompass)
         = Some calibrationMessage
     \<and> accuracyHint (onSample_v2 \<lparr>x = 10, y = 0, z = 0\<rparr> initialCompass)
         = Some calibrationMessage
     \<and> sqrt ((x \<lparr>x = 0, y = 40, z = 0\<rparr>)\<^sup>2 + (y \<lparr>x = 0, y = 40, z = 0\<rparr>)\<^sup>2
        + (z \<lparr>x = 0, y = 40, z = 0\<rparr>)\<^sup>2) = 40
     \<and> accuracyHint (onSample_v1 \<lparr>x = 0, y = 40, z = 0\<rparr> initialCompass) = None
     \<and> accuracyHint (onSample_v2 \<lparr>x = 0, y = 40, z = 0\<rparr> initialCompass) = None
     \<and> sqrt ((x \<lparr>x = 0, y = 0, z = 90\<rparr>)\<^sup>2 + (y \<lparr>x = 0, y = 0, z = 90\<rparr>)\<^sup>2
        + (z \<lparr>x = 0, y = 0, z = 90\<rparr>)\<^sup>2) = 90
     \<and> accuracyHint (onSample_v1 \<lparr>x = 0, y = 0, z = 90\<rparr> initialCompass)
         = Some calibrationMessage
     \<and> accuracyHint (onSample_v2 \<lparr>x = 0, y = 0, z = 90\<rparr> initialCompass)
         = Some calibrationMessage"
  using calibration_hint_by_magnitude [of "\<lparr>x = 10, y = 0, z = 0\<rparr>" initialCompass]
    calibration_hint_by_magnitude [of "\<lparr>x = 0, y = 40, z = 0\<rparr>" initialCompass]
    calibration_hint_by_magnitude [of "\<lparr>x = 0, y = 0, z = 90\<rparr>" initialCompass]
  by (simp add: sqrt_eval)

text \<open>
  C10. When the probe resolves to false (no resolution to true came before), then after
  any further events no listener is registered, the heading is 0, the hint is empty, the
  rotation and its target are 0, and the screen shows 0 degrees, the label N and the
  message that the magnetometer is unavailable, on every platform and in both variants.
\<close>

theorem unavailable_stays_initial:
  assumes "ProbeResolved True \<notin> set es"
  shows "(let m = run v (es @ ProbeResolved False # fs) mount
          in \<not> listening m
           \<and> available (compass m) = Some False
           \<and> heading (compass m) = 0
           \<and> accuracyHint (compass m) = None
           \<and> rotationDeg (compass m) = 0
           \<and> rotationTarget (compass m) = 0
           \<and> render os (compass m)
               = \<lparr>headingText = 0, cardinalText = Some ''N'',
                  subtitleText = ''Magnetometer unavailable on this device'',
                  needleRotation = 0\<rparr>)"
  using unavailable_compass [OF assms, of v fs]
  by (simp add: Let_def initialCompass_def render_def cardSubtitle_def math_round_def card_eval)

theorem unavailable_stays_initial_witness:
  "ProbeResolved True \<notin> set [AnimationSettled]
     \<and> (let m = run V1 ([AnimationSettled] @ ProbeResolved False
                # [Sample 1 0 0, ProbeResolved True, AnimationSettled, Unmount]) mount
        in \<not> listening m
         \<and> available (compass m) = Some False
         \<and> heading (compass m) = 0
         \<and> accuracyHint (compass m) = None
         \<and> rotationDeg (compass m) = 0
         \<and> rotationTarget (compass m) = 0
         \<and> render ''ios'' (compass m)
             = \<lparr>headingText = 0, cardinalText = Some ''N'',
                subtitleText = ''Magnetometer unavailable on this device'',
                needleRotation = 0\<rparr>)"
proof -
  have h: "ProbeResolved True \<notin> set [AnimationSettled]"
    by simp
  show ?thesis
    using h unavailable_stays_initial [OF h, of V1
        "[Sample 1 0 0, ProbeResolved True, AnimationSettled, Unmount]" "''ios''"]
    by (simp only: simp_thms)
qed

end
